theory Spec2Isabelle
  imports Complex_Main "HOL-Library.List_Lexorder" "HOL-Library.Char_ord"
    "HOL-Library.Option_ord" "HOL-Library.Multiset"
begin

section \<open>The poller of \<^verbatim>\<open>fuel_health/test.py\<close>\<close>

text \<open>
  \<^verbatim>\<open>call_until_true(func, duration, sleep_for)\<close> reads the clock, calls a zero-argument
  callable and sleeps. All three act on the world outside the function, so the world is a
  value of a type \<open>'w\<close> that is passed along: \<open>time\<close> reads the clock of a world
  (\<^verbatim>\<open>time.time()\<close>), \<open>sleep d\<close> is the world after \<^verbatim>\<open>time.sleep(d)\<close>, and \<open>func\<close>
  returns the truth value of its result together with the world it leaves behind.
  Seconds are real numbers. The call of \<^verbatim>\<open>LOG.debug\<close> is left out.

  The \<^verbatim>\<open>while\<close> loop may run forever (a clock that stands still, a predicate that is never
  true), so the loop is a partial function: \<open>None\<close> is the loop that does not return.
\<close>

partial_function (option) call_until_true_loop ::
  "('w \<Rightarrow> real) \<Rightarrow> (real \<Rightarrow> 'w \<Rightarrow> 'w) \<Rightarrow> ('w \<Rightarrow> bool \<times> 'w) \<Rightarrow> real \<Rightarrow> real \<Rightarrow> real \<Rightarrow> 'w
     \<Rightarrow> (bool \<times> 'w) option" where
  "call_until_true_loop time sleep func timeout sleep_for now w =
     (if now < timeout then
        (case func w of
           (b, w1) \<Rightarrow>
             if b then Some (True, w1)
             else call_until_true_loop time sleep func timeout sleep_for
                    (time (sleep sleep_for w1)) (sleep sleep_for w1))
      else Some (False, w))"

definition call_until_true ::
  "('w \<Rightarrow> real) \<Rightarrow> (real \<Rightarrow> 'w \<Rightarrow> 'w) \<Rightarrow> ('w \<Rightarrow> bool \<times> 'w) \<Rightarrow> real \<Rightarrow> real \<Rightarrow> 'w
     \<Rightarrow> (bool \<times> 'w) option" where
  "call_until_true time sleep func duration sleep_for w =
     (let now = time w;
          timeout = now + duration
      in call_until_true_loop time sleep func timeout sleep_for now w)"

text \<open>
  The world after \<open>k\<close> unsuccessful rounds of the loop body: the predicate has run and the
  poller has slept, \<open>k\<close> times over.
\<close>

fun after_rounds :: "(real \<Rightarrow> 'w \<Rightarrow> 'w) \<Rightarrow> ('w \<Rightarrow> bool \<times> 'w) \<Rightarrow> real \<Rightarrow> nat \<Rightarrow> 'w \<Rightarrow> 'w" where
  "after_rounds sleep func sleep_for 0 w = w"
| "after_rounds sleep func sleep_for (Suc k) w =
     after_rounds sleep func sleep_for k (sleep sleep_for (snd (func w)))"

text \<open>
  A world to run the poller in: a clock and a counter of the calls of the predicate. The
  predicate \<open>true_on_call n\<close> takes no time and is true on its \<open>n\<close>-th call and on no other.
\<close>

record clock_world =
  clock :: real
  calls :: nat

definition cw_sleep :: "real \<Rightarrow> clock_world \<Rightarrow> clock_world" where
  "cw_sleep d w = w\<lparr>clock := clock w + d\<rparr>"

definition true_on_call :: "nat \<Rightarrow> clock_world \<Rightarrow> bool \<times> clock_world" where
  "true_on_call n w = (Suc (calls w) = n, w\<lparr>calls := Suc (calls w)\<rparr>)"

definition never_true :: "clock_world \<Rightarrow> bool \<times> clock_world" where
  "never_true w = (False, w\<lparr>calls := Suc (calls w)\<rparr>)"

section \<open>The timeout guard of \<^verbatim>\<open>fuel_health/test.py\<close>\<close>

text \<open>
  \<^verbatim>\<open>ExecutionTimeout\<close> is a context manager around \<^verbatim>\<open>signal.alarm\<close>. The state it acts on
  is the handler installed for \<^verbatim>\<open>SIGALRM\<close> and the pending alarm (\<open>None\<close>: no alarm is
  armed; \<^verbatim>\<open>signal.alarm(0)\<close> cancels the alarm). The delivery of the signal while the
  guarded block runs is not part of the class: here the block is a function from the signal
  state it is entered with to the way it ends, and a block that the alarm interrupts ends
  with the exception \<^verbatim>\<open>TimeOutError\<close> that the handler \<^verbatim>\<open>_raise_TimeOut\<close> raises.
\<close>

datatype exc_class = TimeOutError | AssertionError | IndexError | OtherError string

text \<open>
  An entry of \<^verbatim>\<open>traceback.extract_tb\<close>: file name, line number, function name and the text
  of the line (\<open>None\<close> when the source is not at hand).
\<close>

type_synonym tb_entry = "string \<times> nat \<times> string \<times> string option"

text \<open>What \<^verbatim>\<open>__exit__\<close> receives for an exception: its class, its message, its traceback.\<close>

type_synonym exc_info = "exc_class \<times> string \<times> tb_entry list"

datatype sig_handler = SIG_DFL | Raise_TimeOut

record sig_state =
  sigalrm :: sig_handler
  alarm :: "nat option"

definition signal_alarm :: "nat \<Rightarrow> sig_state \<Rightarrow> sig_state" where
  "signal_alarm secs s = s\<lparr>alarm := (if secs = 0 then None else Some secs)\<rparr>"

definition enter :: "nat \<Rightarrow> sig_state \<Rightarrow> sig_state" where
  "enter timeout s = signal_alarm timeout (s\<lparr>sigalrm := Raise_TimeOut\<rparr>)"

text \<open>\<^verbatim>\<open>str\<close> of a natural number, and of the text of a line (\<^verbatim>\<open>None\<close> prints as its name).\<close>

definition digit :: "nat \<Rightarrow> char" where
  "digit d = char_of (48 + d)"

function str_nat :: "nat \<Rightarrow> string" where
  "str_nat n = (if n < 10 then [digit n] else str_nat (n div 10) @ [digit (n mod 10)])"
  by pat_completeness auto
termination
  by (relation "measure (\<lambda>n. n)") auto

definition str_line :: "string option \<Rightarrow> string" where
  "str_line l = (case l of None \<Rightarrow> ''None'' | Some t \<Rightarrow> t)"

definition indent :: string where
  "indent = replicate 16 CHR '' ''"

definition timeout_msg :: "string option \<Rightarrow> nat \<Rightarrow> string" where
  "timeout_msg call timeout =
     [CHR 0x0A] @ indent @ str_line call @ '' terminated with the timeout of ''
       @ str_nat timeout @ '' seconds.''
     @ [CHR 0x0A] @ indent @ ''Please check that this service timeout meets your expectation.''
     @ [CHR 0x0A] @ indent"

text \<open>
  \<^verbatim>\<open>__exit__\<close> either returns \<^verbatim>\<open>False\<close> or raises an exception of its own: the
  \<^verbatim>\<open>AssertionError\<close> with the message, or the \<^verbatim>\<open>IndexError\<close> of \<^verbatim>\<open>[0]\<close> on an empty
  traceback.
\<close>

datatype exit_result = Return_False | Raise exc_class string

definition exit_guard :: "nat \<Rightarrow> exc_info option \<Rightarrow> sig_state \<Rightarrow> exit_result \<times> sig_state" where
  "exit_guard timeout exc s =
     (let s1 = signal_alarm 0 s
      in case exc of
           None \<Rightarrow> (Return_False, s1)
         | Some (exc_type, exc_val, exc_tb) \<Rightarrow>
             if exc_type \<noteq> TimeOutError then (Return_False, s1)
             else (case exc_tb of
                     [] \<Rightarrow> (Raise IndexError ''list index out of range'', s1)
                   | (file, lineno, fn, line) # rest \<Rightarrow>
                       (Raise AssertionError (timeout_msg line timeout), s1)))"

text \<open>
  The \<^verbatim>\<open>with\<close> statement: enter, run the block, exit. When \<^verbatim>\<open>__exit__\<close> returns
  \<^verbatim>\<open>False\<close> the block's own end stands: it completed, or its exception goes on to the
  caller as it is.
\<close>

datatype outcome = Completed | Propagated exc_info | Raised exc_class string

definition with_ExecutionTimeout ::
  "nat \<Rightarrow> (sig_state \<Rightarrow> exc_info option \<times> sig_state) \<Rightarrow> sig_state \<Rightarrow> outcome \<times> sig_state" where
  "with_ExecutionTimeout timeout block s =
     (case block (enter timeout s) of
        (exc, s1) \<Rightarrow>
          (case exit_guard timeout exc s1 of
             (Return_False, s2) \<Rightarrow>
               (case exc of None \<Rightarrow> (Completed, s2) | Some e \<Rightarrow> (Propagated e, s2))
           | (Raise c m, s2) \<Rightarrow> (Raised c m, s2)))"

section \<open>The storage model of \<^verbatim>\<open>ostf_adapter/storage/models.py\<close>\<close>

subsection \<open>Rows\<close>

text \<open>
  The values a column holds: SQL \<^verbatim>\<open>NULL\<close> (Python's \<^verbatim>\<open>None\<close>), integers, strings, floats
  and the text of a JSON field.
\<close>

datatype val = VNull | VInt int | VStr string | VFloat real | VJson string

text \<open>
  The columns of the table \<^verbatim>\<open>tests\<close>. \<^verbatim>\<open>Test.copy_test\<close> walks over the columns and
  \<^verbatim>\<open>Test.add_result\<close> updates the columns that a dictionary names, so a row of the table
  is a function from the columns to their values.
\<close>

datatype column =
    Col_id | Col_name | Col_title | Col_description | Col_duration | Col_message
  | Col_traceback | Col_status | Col_step | Col_time_taken | Col_meta
  | Col_test_set_id | Col_test_run_id

type_synonym test = "column \<Rightarrow> val"

definition primary_keys :: "column list" where
  "primary_keys = [Col_id]"

definition Test_STATES :: "string list" where
  "Test_STATES =
     [''wait_running'', ''running'', ''failure'', ''success'', ''error'', ''stopped'']"

definition TestRun_STATES :: "string list" where
  "TestRun_STATES = [''running'', ''finished'']"

record test_run =
  run_id :: int
  cluster_id :: int
  status :: string
  meta :: "string option"
  started_at :: "int option"
  ended_at :: "int option"
  test_set_id :: string

record test_set =
  set_id :: string
  description :: "string option"
  test_path :: "string option"
  driver :: "string option"
  additional_arguments :: "string list"
  cleanup_path :: "string option"
  set_meta :: "string option"

text \<open>
  The calls that reach the external runner (the plugin of \<^verbatim>\<open>nose_plugin.get_plugin\<close>):
  \<^verbatim>\<open>run\<close> with the id of the run and the names it is given, \<^verbatim>\<open>kill\<close> with the id of the
  run and of the cluster. The runner works outside the store; what it does comes back through
  \<^verbatim>\<open>add_result\<close> and \<^verbatim>\<open>update\<close>. The look-up of the plugin by the driver of the suite
  and the clean-up path handed to \<^verbatim>\<open>kill\<close> are left out.
\<close>

datatype runner_call = Run int "string list option" | Kill int int

text \<open>
  The session: the rows of \<^verbatim>\<open>test_runs\<close> and of \<^verbatim>\<open>tests\<close> in the order they were
  inserted, the collections \<^verbatim>\<open>tests\<close> that the session has loaded for its run objects
  (by the id of the run; a run without an entry has not had its collection loaded), and the
  calls made to the runner so far. A time stamp (\<^verbatim>\<open>datetime.utcnow()\<close>) is an integer
  that the caller passes in.
\<close>

record state =
  runs :: "test_run list"
  tests :: "test list"
  loaded :: "int \<rightharpoonup> test list"
  runner_log :: "runner_call list"

text \<open>
  The exceptions: \<^verbatim>\<open>KeyError\<close> of a dictionary, and \<^verbatim>\<open>IntegrityError\<close> of a row that
  the store refuses.
\<close>

datatype error = KeyError | IntegrityError

subsection \<open>Keys generated by the store\<close>

text \<open>
  Modelled from the spec: the module \<^verbatim>\<open>storage.engine\<close> and the database behind it are not
  part of the sources; the spec says of a run "identity = numeric id, generated on creation",
  and that the highest id is the most recent run. A new row gets the key after the highest
  key in its table. The session flushes before a query runs (the default of the library), so
  the new run has its id when the templates are read.
\<close>

definition next_run_id :: "state \<Rightarrow> int" where
  "next_run_id s = 1 + fold (\<lambda>r m. max (run_id r) m) (runs s) 0"

definition test_pk :: "test \<Rightarrow> int" where
  "test_pk t = (case t Col_id of VInt i \<Rightarrow> i | _ \<Rightarrow> 0)"

definition next_test_id :: "state \<Rightarrow> int" where
  "next_test_id s = 1 + fold (\<lambda>t m. max (test_pk t) m) (tests s) 0"

text \<open>
  \<^verbatim>\<open>session.add\<close> of a new row of \<^verbatim>\<open>tests\<close>: the session holds the row among its new
  objects until it flushes.
\<close>

definition session_add_test :: "test \<Rightarrow> test list \<Rightarrow> test list" where
  "session_add_test t new = new @ [t]"

text \<open>
  The column \<^verbatim>\<open>status\<close> of \<^verbatim>\<open>tests\<close> is declared as
  \<^verbatim>\<open>sa.Enum(*STATES, name='test_states')\<close> and may be \<^verbatim>\<open>NULL\<close>: the store takes a new
  row only when its status is \<^verbatim>\<open>NULL\<close> or one of \<^verbatim>\<open>Test.STATES\<close>.
\<close>

definition status_ok :: "test \<Rightarrow> bool" where
  "status_ok t = (t Col_status = VNull \<or> t Col_status \<in> set (map VStr Test_STATES))"

definition insert_test :: "test \<Rightarrow> state \<Rightarrow> state" where
  "insert_test t s = s\<lparr>tests := tests s @ [t(Col_id := VInt (next_test_id s))]\<rparr>"

text \<open>
  The flush of the session writes the new objects, each with a key of its own. One row that
  the store refuses makes the flush raise \<^verbatim>\<open>IntegrityError\<close>, and none is written.
\<close>

definition flush :: "test list \<Rightarrow> state \<Rightarrow> error + state" where
  "flush new s = (if list_all status_ok new then Inr (fold insert_test new s)
                  else Inl IntegrityError)"

text \<open>
  \<^verbatim>\<open>session.add\<close> of a run that was changed: the row with its id is written, and a run that
  has no row yet is inserted.
\<close>

definition session_add_run :: "test_run \<Rightarrow> state \<Rightarrow> state" where
  "session_add_run r s =
     (if run_id r \<in> set (map run_id (runs s))
      then s\<lparr>runs := map (\<lambda>x. if run_id x = run_id r then r else x) (runs s)\<rparr>
      else s\<lparr>runs := runs s @ [r]\<rparr>)"

subsection \<open>\<^verbatim>\<open>Test\<close>\<close>

record test_frontend =
  ft_id :: val
  ft_testset :: val
  ft_name :: val
  ft_description :: val
  ft_duration :: val
  ft_message :: val
  ft_step :: val
  ft_status :: val
  ft_taken :: val

definition Test_frontend :: "test \<Rightarrow> test_frontend" where
  "Test_frontend t =
     \<lparr>ft_id = t Col_name, ft_testset = t Col_test_set_id, ft_name = t Col_title,
      ft_description = t Col_description, ft_duration = t Col_duration,
      ft_message = t Col_message, ft_step = t Col_step, ft_status = t Col_status,
      ft_taken = t Col_time_taken\<rparr>"

text \<open>The bulk \<^verbatim>\<open>update(data)\<close> of a query on one row: the columns that \<open>data\<close> names.\<close>

definition update_row :: "(column \<rightharpoonup> val) \<Rightarrow> test \<Rightarrow> test" where
  "update_row data t = (\<lambda>c. case data c of Some v \<Rightarrow> v | None \<Rightarrow> t c)"

definition add_result :: "state \<Rightarrow> int \<Rightarrow> string \<Rightarrow> (column \<rightharpoonup> val) \<Rightarrow> state" where
  "add_result s test_run_id test_name data =
     s\<lparr>tests :=
         map (\<lambda>t. if t Col_name = VStr test_name \<and> t Col_test_run_id = VInt test_run_id
                   then update_row data t else t)
             (tests s)\<rparr>"

definition update_running_tests :: "state \<Rightarrow> int \<Rightarrow> string \<Rightarrow> state" where
  "update_running_tests s test_run_id st =
     s\<lparr>tests :=
         map (\<lambda>t. if t Col_test_run_id = VInt test_run_id
                      \<and> t Col_status \<in> set [VStr ''running'', VStr ''wait_running'']
                   then update_row [Col_status \<mapsto> VStr st] t else t)
             (tests s)\<rparr>"

definition update_test_run_tests :: "state \<Rightarrow> int \<Rightarrow> string list \<Rightarrow> string \<Rightarrow> state" where
  "update_test_run_tests s test_run_id tests_names st =
     s\<lparr>tests :=
         map (\<lambda>t. if t Col_name \<in> set (map VStr tests_names)
                      \<and> t Col_test_run_id = VInt test_run_id
                   then update_row [Col_status \<mapsto> VStr st] t else t)
             (tests s)\<rparr>"

definition copy_test :: "test \<Rightarrow> test_run \<Rightarrow> string list \<Rightarrow> test" where
  "copy_test self test_run predefined_tests =
     (let new_test = (\<lambda>c. if c \<in> set primary_keys then VNull else self c);
          new_test = new_test(Col_test_run_id := VInt (run_id test_run))
      in if predefined_tests \<noteq> [] \<and> new_test Col_name \<notin> set (map VStr predefined_tests)
         then new_test(Col_status := VStr ''disabled'')
         else new_test(Col_status := VStr ''wait_running''))"

subsection \<open>\<^verbatim>\<open>TestRun\<close>\<close>

definition update :: "test_run \<Rightarrow> state \<Rightarrow> string \<Rightarrow> int \<Rightarrow> test_run \<times> state" where
  "update self s st now =
     (let self1 = self\<lparr>status := st\<rparr>;
          self2 = (if st = ''finished'' then self1\<lparr>ended_at := Some now\<rparr> else self1)
      in (self2, session_add_run self2 s))"

definition is_finished :: "test_run \<Rightarrow> bool" where
  "is_finished self = (status self = ''finished'')"

text \<open>
  The relationship \<^verbatim>\<open>tests\<close> of a run, as a query loads it: the rows of \<^verbatim>\<open>tests\<close>
  with the id of the run, ordered by name. A name that is \<^verbatim>\<open>NULL\<close> is no string: it comes
  before every string, the empty one too (the order of SQLite and MySQL; PostgreSQL puts
  \<^verbatim>\<open>NULL\<close> last). The source does not order rows of the same name; here they come in the
  order of the table.
\<close>

definition name_key :: "test \<Rightarrow> string option" where
  "name_key t = (case t Col_name of VStr n \<Rightarrow> Some n | _ \<Rightarrow> None)"

definition run_tests :: "state \<Rightarrow> test_run \<Rightarrow> test list" where
  "run_tests s self =
     sort_key name_key (filter (\<lambda>t. t Col_test_run_id = VInt (run_id self)) (tests s))"

text \<open>
  The attribute \<^verbatim>\<open>self.tests\<close> of a run object: the collection that the session has loaded
  for it, as it was loaded; when none is loaded, the rows are read now. The bulk updates of
  \<^verbatim>\<open>Test\<close> run with \<^verbatim>\<open>synchronize_session=False\<close>, so they change the rows and leave
  a loaded collection as it is.
\<close>

definition TestRun_tests :: "state \<Rightarrow> test_run \<Rightarrow> test list" where
  "TestRun_tests s self =
     (case loaded s (run_id self) of Some ts \<Rightarrow> ts | None \<Rightarrow> run_tests s self)"

definition enabled_tests :: "state \<Rightarrow> test_run \<Rightarrow> val list" where
  "enabled_tests s self =
     map (\<lambda>t. t Col_name)
       (filter (\<lambda>t. t Col_status \<noteq> VStr ''disabled'') (TestRun_tests s self))"

record run_frontend =
  fr_id :: int
  fr_testset :: string
  fr_meta :: "string option"
  fr_cluster_id :: int
  fr_status :: string
  fr_started_at :: "int option"
  fr_ended_at :: "int option"
  fr_tests :: "test_frontend list"

text \<open>
  The property \<^verbatim>\<open>frontend\<close> of a run object, from the fields of the object and its
  collection \<^verbatim>\<open>self.tests\<close> (a list that is empty gives the empty list either way).
\<close>

definition frontend :: "test list \<Rightarrow> test_run \<Rightarrow> run_frontend" where
  "frontend self_tests self =
     \<lparr>fr_id = run_id self, fr_testset = test_set_id self, fr_meta = meta self,
      fr_cluster_id = cluster_id self, fr_status = status self,
      fr_started_at = started_at self, fr_ended_at = ended_at self,
      fr_tests = map Test_frontend self_tests\<rparr>"

text \<open>
  \<^verbatim>\<open>add_test_run\<close> returns the new run; the session then has the row of the run (the
  query for the templates flushes it) and holds the clones among its new objects, which are
  the third component here.
\<close>

definition add_test_run ::
  "state \<Rightarrow> string \<Rightarrow> int \<Rightarrow> string \<Rightarrow> string list option \<Rightarrow> int
     \<Rightarrow> test_run \<times> state \<times> test list" where
  "add_test_run s suite cid st names now =
     (let predefined_tests = (case names of None \<Rightarrow> [] | Some ns \<Rightarrow> ns);
          templates =
            filter (\<lambda>t. t Col_test_set_id = VStr suite \<and> t Col_test_run_id = VNull) (tests s);
          test_run =
            \<lparr>run_id = next_run_id s, cluster_id = cid, status = st, meta = None,
             started_at = Some now, ended_at = None, test_set_id = suite\<rparr>;
          s1 = s\<lparr>runs := runs s @ [test_run]\<rparr>
      in (test_run, s1,
          fold (\<lambda>t. session_add_test (copy_test t test_run predefined_tests)) templates []))"

definition get_last_test_run :: "state \<Rightarrow> string \<Rightarrow> int \<Rightarrow> test_run option" where
  "get_last_test_run s suite cid =
     (case rev (sort_key run_id
                  (filter (\<lambda>r. cluster_id r = cid \<and> test_set_id r = suite) (runs s))) of
        [] \<Rightarrow> None
      | r # rest \<Rightarrow> Some r)"

text \<open>
  \<^verbatim>\<open>get_test_run\<close> without \<^verbatim>\<open>joined\<close> reads the row; with \<^verbatim>\<open>joined=True\<close> the
  query loads the collection \<^verbatim>\<open>tests\<close> of the run with it.
\<close>

definition get_test_run :: "state \<Rightarrow> int \<Rightarrow> test_run option" where
  "get_test_run s test_run_id = find (\<lambda>r. run_id r = test_run_id) (runs s)"

definition get_test_run_joined :: "state \<Rightarrow> int \<Rightarrow> test_run option \<times> state" where
  "get_test_run_joined s test_run_id =
     (case find (\<lambda>r. run_id r = test_run_id) (runs s) of
        None \<Rightarrow> (None, s)
      | Some r \<Rightarrow> (Some r, s\<lparr>loaded := (loaded s)(run_id r \<mapsto> run_tests s r)\<rparr>))"

text \<open>
  \<^verbatim>\<open>update_test_run\<close> collects the columns to write and updates the rows with the id:
  the status when one is given and is not empty, the end time stamp when the status is
  \<^verbatim>\<open>finished\<close>.
\<close>

definition update_test_run :: "state \<Rightarrow> int \<Rightarrow> string option \<Rightarrow> int \<Rightarrow> state" where
  "update_test_run s test_run_id st now =
     (let set_status = (case st of
                          None \<Rightarrow> (\<lambda>r. r)
                        | Some v \<Rightarrow> if v = [] then (\<lambda>r. r) else (\<lambda>r. r\<lparr>status := v\<rparr>));
          set_ended_at = (if st = Some ''finished'' then (\<lambda>r. r\<lparr>ended_at := Some now\<rparr>)
                          else (\<lambda>r. r))
      in s\<lparr>runs := map (\<lambda>r. if run_id r = test_run_id then set_ended_at (set_status r) else r)
                       (runs s)\<rparr>)"

definition is_last_running :: "state \<Rightarrow> string \<Rightarrow> int \<Rightarrow> bool" where
  "is_last_running s suite cid =
     (case get_last_test_run s suite cid of
        None \<Rightarrow> True
      | Some test_run \<Rightarrow> is_finished test_run)"

text \<open>
  Modelled from the spec: the transaction around an operation is opened by the caller, who
  is not part of the sources; the spec says that a failure of the store "must roll back
  fully", "leaving no partial state". After a failure the rows and the loaded collections
  are those from before the operation; the calls that the runner has received stay.
\<close>

definition rollback :: "state \<Rightarrow> state \<Rightarrow> state" where
  "rollback before s = before\<lparr>runner_log := runner_log s\<rparr>"

text \<open>
  \<^verbatim>\<open>start\<close> ends in one of three ways: it raises, it returns the empty dictionary
  (\<open>None\<close>), or it returns the snapshot of the new run. The new run object has no
  collection loaded, so its snapshot reads the rows; that query is where the session flushes
  the clones, after the runner was called.
\<close>

definition start ::
  "state \<Rightarrow> test_set \<Rightarrow> (string \<rightharpoonup> int) \<Rightarrow> string list option \<Rightarrow> int
     \<Rightarrow> (error + run_frontend option) \<times> state" where
  "start s suite metadata names now =
     (case metadata ''cluster_id'' of
        None \<Rightarrow> (Inl KeyError, s)
      | Some cid \<Rightarrow>
          if is_last_running s (set_id suite) cid then
            (case add_test_run s (set_id suite) cid ''running'' names now of
               (test_run, s1, new) \<Rightarrow>
                 (let s2 = s1\<lparr>runner_log := runner_log s1 @ [Run (run_id test_run) None]\<rparr>
                  in case flush new s2 of
                       Inl e \<Rightarrow> (Inl e, rollback s s2)
                     | Inr s3 \<Rightarrow>
                         (Inr (Some (frontend (run_tests s3 test_run) test_run)), s3)))
          else (Inr None, s))"

definition restart ::
  "test_run \<Rightarrow> state \<Rightarrow> string list option \<Rightarrow> int \<Rightarrow> run_frontend option \<times> state" where
  "restart self s names now =
     (if is_last_running s (test_set_id self) (cluster_id self) then
        (case update self s ''running'' now of
           (self1, s1) \<Rightarrow>
             (let s2 = (case names of
                          None \<Rightarrow> s1
                        | Some [] \<Rightarrow> s1
                        | Some (n # ns) \<Rightarrow>
                            update_test_run_tests s1 (run_id self1) (n # ns) ''wait_running'');
                  s3 = s2\<lparr>runner_log := runner_log s2 @ [Run (run_id self1) names]\<rparr>
              in (Some (frontend (TestRun_tests s3 self1) self1), s3)))
      else (None, s))"

definition stop :: "test_run \<Rightarrow> state \<Rightarrow> bool \<Rightarrow> run_frontend \<times> state" where
  "stop self s killed =
     (let s1 = s\<lparr>runner_log := runner_log s @ [Kill (run_id self) (cluster_id self)]\<rparr>;
          s2 = (if killed then update_running_tests s1 (run_id self) ''stopped'' else s1)
      in (frontend (TestRun_tests s2 self) self, s2))"

subsection \<open>Operations on a store\<close>

text \<open>
  The operations a caller can apply to a store. A caller of \<^verbatim>\<open>restart\<close>, \<^verbatim>\<open>stop\<close> and
  \<^verbatim>\<open>update\<close> first loads the run by its id (\<^verbatim>\<open>get_test_run\<close>); a run that is not found
  leaves the store as it is.
\<close>

datatype op =
    Op_start test_set "string \<rightharpoonup> int" "string list option" int
  | Op_restart int "string list option" int
  | Op_stop int bool
  | Op_update int string int
  | Op_update_test_run int "string option" int
  | Op_add_result int string "column \<rightharpoonup> val"

fun exec :: "op \<Rightarrow> state \<Rightarrow> state" where
  "exec (Op_start suite metadata names now) s = snd (start s suite metadata names now)"
| "exec (Op_restart rid names now) s =
     (case get_test_run s rid of None \<Rightarrow> s | Some self \<Rightarrow> snd (restart self s names now))"
| "exec (Op_stop rid killed) s =
     (case get_test_run s rid of None \<Rightarrow> s | Some self \<Rightarrow> snd (stop self s killed))"
| "exec (Op_update rid st now) s =
     (case get_test_run s rid of None \<Rightarrow> s | Some self \<Rightarrow> snd (update self s st now))"
| "exec (Op_update_test_run rid st now) s = update_test_run s rid st now"
| "exec (Op_add_result rid test_name data) s = add_result s rid test_name data"

subsection \<open>Properties of a store\<close>

text \<open>
  The finish invariant in the words of the spec (P2, I2): the end time stamp of a run is set
  if and only if the status of the run is \<^verbatim>\<open>finished\<close>.
\<close>

definition P2_finish_invariant :: "state \<Rightarrow> bool" where
  "P2_finish_invariant s =
     list_all (\<lambda>r. (ended_at r \<noteq> None) = (status r = ''finished'')) (runs s)"

text \<open>One half of it: a run that is \<^verbatim>\<open>finished\<close> has its end time stamp.\<close>

definition finished_has_ended :: "state \<Rightarrow> bool" where
  "finished_has_ended s =
     list_all (\<lambda>r. status r = ''finished'' \<longrightarrow> ended_at r \<noteq> None) (runs s)"


definition references_ok :: "state \<Rightarrow> bool" where
  "references_ok s =
     list_all (\<lambda>t. t Col_test_run_id = VNull
                    \<or> t Col_test_run_id \<in> set (map (\<lambda>r. VInt (run_id r)) (runs s)))
              (tests s)"


subsection \<open>The scenarios of the spec\<close>

definition mk_test :: "int \<Rightarrow> string \<Rightarrow> string \<Rightarrow> val \<Rightarrow> val \<Rightarrow> test" where
  "mk_test i n suite rid st =
     (\<lambda>c. VNull)(Col_id := VInt i, Col_name := VStr n, Col_test_set_id := VStr suite,
                 Col_test_run_id := rid, Col_status := st)"

definition smoke :: test_set where
  "smoke = \<lparr>set_id = ''smoke'', description = None, test_path = None, driver = Some ''nose'',
            additional_arguments = [], cleanup_path = None, set_meta = None\<rparr>"

definition target_1 :: "string \<rightharpoonup> int" where
  "target_1 = [''cluster_id'' \<mapsto> 1]"

text \<open>Scenario A: the suite \<^verbatim>\<open>smoke\<close> with the checks \<^verbatim>\<open>net\<close> and \<^verbatim>\<open>disk\<close>, and no run.\<close>

definition state_A :: state where
  "state_A =
     \<lparr>runs = [],
      tests = [mk_test 1 ''net'' ''smoke'' VNull VNull, mk_test 2 ''disk'' ''smoke'' VNull VNull],
      loaded = Map.empty, runner_log = []\<rparr>"

text \<open>Scenario B: run 7 with \<^verbatim>\<open>net\<close> running and \<^verbatim>\<open>disk\<close> waiting.\<close>

definition run_B :: test_run where
  "run_B = \<lparr>run_id = 7, cluster_id = 1, status = ''running'', meta = None,
            started_at = Some 3, ended_at = None, test_set_id = ''smoke''\<rparr>"

definition state_B :: state where
  "state_B =
     \<lparr>runs = [run_B],
      tests = [mk_test 1 ''net'' ''smoke'' VNull VNull, mk_test 2 ''disk'' ''smoke'' VNull VNull,
               mk_test 3 ''net'' ''smoke'' (VInt 7) (VStr ''running''),
               mk_test 4 ''disk'' ''smoke'' (VInt 7) (VStr ''wait_running'')],
      loaded = Map.empty, runner_log = [Run 7 None]\<rparr>"

text \<open>Scenario C: run 7 is finished, \<^verbatim>\<open>net\<close> succeeded and \<^verbatim>\<open>disk\<close> failed.\<close>

definition run_C :: test_run where
  "run_C = \<lparr>run_id = 7, cluster_id = 1, status = ''finished'', meta = None,
            started_at = Some 3, ended_at = Some 10, test_set_id = ''smoke''\<rparr>"

definition state_C :: state where
  "state_C =
     \<lparr>runs = [run_C],
      tests = [mk_test 1 ''net'' ''smoke'' VNull VNull, mk_test 2 ''disk'' ''smoke'' VNull VNull,
               mk_test 3 ''net'' ''smoke'' (VInt 7) (VStr ''success''),
               mk_test 4 ''disk'' ''smoke'' (VInt 7) (VStr ''failure'')],
      loaded = Map.empty, runner_log = [Run 7 None]\<rparr>"

text \<open>
  Scenario B with run 7 loaded by \<^verbatim>\<open>get_test_run(..., joined=True)\<close>: the session holds
  the collection of the run as it is now.
\<close>

definition state_B_joined :: state where
  "state_B_joined = snd (get_test_run_joined state_B 7)"

text \<open>
  Scenario E: a block whose call sleeps for five seconds under a guard of one second is
  interrupted in that call; a block that raises \<^verbatim>\<open>ValueError\<close> at once.
\<close>

definition sleeping_block :: "sig_state \<Rightarrow> exc_info option \<times> sig_state" where
  "sleeping_block s =
     (case alarm s of
        None \<Rightarrow> (None, s)
      | Some secs \<Rightarrow>
          if secs < 5
          then (Some (TimeOutError, [],
                      [(''probe.py'', 12, ''check'', Some ''time.sleep(5)''),
                       (''fuel_health/test.py'', 42, ''_raise_TimeOut'',
                        Some ''raise TimeOutError()'')]),
                s\<lparr>alarm := None\<rparr>)
          else (None, s))"

definition failing_block :: "sig_state \<Rightarrow> exc_info option \<times> sig_state" where
  "failing_block s =
     (Some (OtherError ''ValueError'', ''bad value'',
            [(''probe.py'', 12, ''check'', Some ''int(text)'')]), s)"

section \<open>Theorems about the poller\<close>

lemma loop_rounds:
  "\<forall>i<k. time (after_rounds sleep func sleep_for i w) < timeout
            \<and> \<not> fst (func (after_rounds sleep func sleep_for i w)) \<Longrightarrow>
   call_until_true_loop time sleep func timeout sleep_for (time w) w =
   call_until_true_loop time sleep func timeout sleep_for
     (time (after_rounds sleep func sleep_for k w)) (after_rounds sleep func sleep_for k w)"
proof (induction k arbitrary: w)
  case 0
  show ?case by simp
next
  case (Suc k)
  let ?w2 = "sleep sleep_for (snd (func w))"
  from Suc.prems have h0: "time w < timeout" "\<not> fst (func w)"
    by (metis after_rounds.simps(1) zero_less_Suc)+
  have shift: "\<forall>i<k. time (after_rounds sleep func sleep_for i ?w2) < timeout
            \<and> \<not> fst (func (after_rounds sleep func sleep_for i ?w2))"
  proof (intro allI impI)
    fix i assume "i < k"
    then have "Suc i < Suc k" by simp
    with Suc.prems show "time (after_rounds sleep func sleep_for i ?w2) < timeout
            \<and> \<not> fst (func (after_rounds sleep func sleep_for i ?w2))"
      by (metis after_rounds.simps(2))
  qed
  have "call_until_true_loop time sleep func timeout sleep_for (time w) w =
        call_until_true_loop time sleep func timeout sleep_for (time ?w2) ?w2"
    using h0 by (subst call_until_true_loop.simps) (simp add: case_prod_beta)
  also have "\<dots> = call_until_true_loop time sleep func timeout sleep_for
     (time (after_rounds sleep func sleep_for k ?w2)) (after_rounds sleep func sleep_for k ?w2)"
    by (rule Suc.IH [OF shift])
  finally show ?case by simp
qed

lemma loop_true:
  "now < timeout \<Longrightarrow> fst (func w) \<Longrightarrow>
   call_until_true_loop time sleep func timeout sleep_for now w = Some (True, snd (func w))"
  by (subst call_until_true_loop.simps) (simp add: case_prod_beta)

lemma loop_expired:
  "\<not> now < timeout \<Longrightarrow>
   call_until_true_loop time sleep func timeout sleep_for now w = Some (False, w)"
  by (subst call_until_true_loop.simps) simp

text \<open>
  Claim C8. After \<open>k\<close> rounds in which the budget was not used up and the predicate was
  false, with a sleep of the constant interval after each of them: if the budget is still not
  used up and the predicate is now true, the poller returns true with the world as that call
  of the predicate left it (no further sleep, no further call); if the time elapsed since the
  clock was read before the first call has reached the budget, the poller returns false with
  the world as it was after the \<open>k\<close> rounds (the predicate is not called again).
\<close>

theorem call_until_true_rounds:
  assumes "\<forall>i<k. time (after_rounds sleep func sleep_for i w) - time w < duration
                  \<and> \<not> fst (func (after_rounds sleep func sleep_for i w))"
  shows "(time (after_rounds sleep func sleep_for k w) - time w < duration
            \<and> fst (func (after_rounds sleep func sleep_for k w))
          \<longrightarrow> call_until_true time sleep func duration sleep_for w
                = Some (True, snd (func (after_rounds sleep func sleep_for k w))))
       \<and> (duration \<le> time (after_rounds sleep func sleep_for k w) - time w
          \<longrightarrow> call_until_true time sleep func duration sleep_for w
                = Some (False, after_rounds sleep func sleep_for k w))"
proof -
  let ?wk = "after_rounds sleep func sleep_for k w"
  let ?timeout = "time w + duration"
  from assms have "\<forall>i<k. time (after_rounds sleep func sleep_for i w) < ?timeout
                  \<and> \<not> fst (func (after_rounds sleep func sleep_for i w))"
    by (simp add: algebra_simps)
  then have step: "call_until_true time sleep func duration sleep_for w =
      call_until_true_loop time sleep func ?timeout sleep_for (time ?wk) ?wk"
    unfolding call_until_true_def Let_def by (rule loop_rounds)
  show ?thesis
  proof (intro conjI impI)
    assume "time ?wk - time w < duration \<and> fst (func ?wk)"
    then have "time ?wk < ?timeout" "fst (func ?wk)" by (simp_all add: algebra_simps)
    then show "call_until_true time sleep func duration sleep_for w = Some (True, snd (func ?wk))"
      by (simp add: step loop_true)
  next
    assume "duration \<le> time ?wk - time w"
    then have "\<not> time ?wk < ?timeout" by (simp add: algebra_simps)
    then show "call_until_true time sleep func duration sleep_for w = Some (False, ?wk)"
      by (simp add: step loop_expired)
  qed
qed

text \<open>
  Scenario D: a predicate that is true on its third call, interval 1, budget 10: success
  with three calls after two seconds. A predicate that is never true under a budget of 3:
  failure after three calls.
\<close>

theorem call_until_true_rounds_witness:
  "call_until_true clock cw_sleep (true_on_call 3) 10 1 \<lparr>clock = 0, calls = 0\<rparr>
     = Some (True, \<lparr>clock = 2, calls = 3\<rparr>)
   \<and> call_until_true clock cw_sleep never_true 3 1 \<lparr>clock = 0, calls = 0\<rparr>
     = Some (False, \<lparr>clock = 3, calls = 3\<rparr>)"
proof -
  have r2: "after_rounds cw_sleep (true_on_call 3) 1 2 \<lparr>clock = 0, calls = 0\<rparr>
            = \<lparr>clock = 2, calls = 2\<rparr>"
    by (simp add: numeral_2_eq_2 cw_sleep_def true_on_call_def)
  have h1: "\<forall>i<2. clock (after_rounds cw_sleep (true_on_call 3) 1 i \<lparr>clock = 0, calls = 0\<rparr>)
                    - clock \<lparr>clock = 0, calls = 0\<rparr> < 10
                  \<and> \<not> fst (true_on_call 3 (after_rounds cw_sleep (true_on_call 3) 1 i \<lparr>clock = 0, calls = 0\<rparr>))"
    by (simp add: numeral_2_eq_2 less_Suc_eq cw_sleep_def true_on_call_def)
  have r3: "after_rounds cw_sleep never_true 1 3 \<lparr>clock = 0, calls = 0\<rparr>
            = \<lparr>clock = 3, calls = 3\<rparr>"
    by (simp add: numeral_3_eq_3 cw_sleep_def never_true_def)
  have h2: "\<forall>i<3. clock (after_rounds cw_sleep never_true 1 i \<lparr>clock = 0, calls = 0\<rparr>)
                    - clock \<lparr>clock = 0, calls = 0\<rparr> < 3
                  \<and> \<not> fst (never_true (after_rounds cw_sleep never_true 1 i \<lparr>clock = 0, calls = 0\<rparr>))"
    by (simp add: numeral_3_eq_3 less_Suc_eq cw_sleep_def never_true_def)
  have f: "fst (true_on_call 3 \<lparr>clock = 2, calls = 2\<rparr>)"
    "snd (true_on_call 3 \<lparr>clock = 2, calls = 2\<rparr>) = \<lparr>clock = 2, calls = 3\<rparr>"
    by (simp_all add: true_on_call_def)
  note a = call_until_true_rounds [OF h1, unfolded r2]
    and b = call_until_true_rounds [OF h2, unfolded r3]
  from a b show ?thesis
    by (simp add: f)
qed

text \<open>
  Claim C10. For every predicate and every interval, a budget that is zero or negative makes
  the poller return false in the world it was called in: the predicate was never called.
\<close>

theorem call_until_true_no_budget:
  "duration \<le> 0 \<Longrightarrow> call_until_true time sleep func duration sleep_for w = Some (False, w)"
  unfolding call_until_true_def Let_def by (rule loop_expired) simp

theorem call_until_true_no_budget_witness:
  "(-1::real) \<le> 0 \<and> call_until_true clock cw_sleep (true_on_call 1) (-1) 1 \<lparr>clock = 5, calls = 0\<rparr>
     = Some (False, \<lparr>clock = 5, calls = 0\<rparr>)"
  using call_until_true_no_budget [of "-1" clock cw_sleep "true_on_call 1" 1 "\<lparr>clock = 5, calls = 0\<rparr>"]
  by simp

section \<open>Theorems about the timeout guard\<close>

lemma alarm_exit_guard: "alarm (snd (exit_guard timeout exc s)) = None"
  by (simp add: exit_guard_def signal_alarm_def Let_def split: option.splits prod.splits list.splits)

text \<open>
  Claim C9. Whatever the guarded block does, no alarm is armed when the guard is left. A
  block that completes leaves the guard completed; an exception of the block other than the
  timeout signal leaves the guard as it is, with its message and traceback; a block that ends
  with the timeout signal makes the guard raise \<^verbatim>\<open>AssertionError\<close> with a message that
  starts with the text of the line of the block that was running.
\<close>

theorem ExecutionTimeout_outcome:
  "alarm (snd (with_ExecutionTimeout timeout block s)) = None
   \<and> (fst (block (enter timeout s)) = None
        \<longrightarrow> fst (with_ExecutionTimeout timeout block s) = Completed)
   \<and> (\<forall>c m tb. fst (block (enter timeout s)) = Some (c, m, tb) \<and> c \<noteq> TimeOutError
        \<longrightarrow> fst (with_ExecutionTimeout timeout block s) = Propagated (c, m, tb))
   \<and> (\<forall>m file lineno fn call rest.
         fst (block (enter timeout s)) = Some (TimeOutError, m, (file, lineno, fn, Some call) # rest)
        \<longrightarrow> fst (with_ExecutionTimeout timeout block s)
              = Raised AssertionError
                  ([CHR 0x0A] @ indent @ call @ '' terminated with the timeout of ''
                     @ str_nat timeout @ '' seconds.''
                   @ [CHR 0x0A] @ indent
                   @ ''Please check that this service timeout meets your expectation.''
                   @ [CHR 0x0A] @ indent))"
proof -
  obtain exc s1 where b: "block (enter timeout s) = (exc, s1)"
    by (cases "block (enter timeout s)")
  obtain r s2 where e: "exit_guard timeout exc s1 = (r, s2)"
    by (cases "exit_guard timeout exc s1")
  have "alarm s2 = None"
    using alarm_exit_guard [of timeout exc s1] by (simp add: e)
  then have 1: "alarm (snd (with_ExecutionTimeout timeout block s)) = None"
    by (simp add: with_ExecutionTimeout_def b e split: exit_result.splits option.splits)
  have 2: "fst (block (enter timeout s)) = None
        \<longrightarrow> fst (with_ExecutionTimeout timeout block s) = Completed"
    by (simp add: with_ExecutionTimeout_def b exit_guard_def Let_def)
  have 3: "\<forall>c m tb. fst (block (enter timeout s)) = Some (c, m, tb) \<and> c \<noteq> TimeOutError
        \<longrightarrow> fst (with_ExecutionTimeout timeout block s) = Propagated (c, m, tb)"
    by (simp add: with_ExecutionTimeout_def b exit_guard_def Let_def)
  have 4: "\<forall>m file lineno fn call rest.
         fst (block (enter timeout s)) = Some (TimeOutError, m, (file, lineno, fn, Some call) # rest)
        \<longrightarrow> fst (with_ExecutionTimeout timeout block s)
              = Raised AssertionError
                  ([CHR 0x0A] @ indent @ call @ '' terminated with the timeout of ''
                     @ str_nat timeout @ '' seconds.''
                   @ [CHR 0x0A] @ indent
                   @ ''Please check that this service timeout meets your expectation.''
                   @ [CHR 0x0A] @ indent)"
    by (simp add: with_ExecutionTimeout_def b exit_guard_def Let_def timeout_msg_def str_line_def)
  from 1 2 3 4 show ?thesis by blast
qed

text \<open>Scenario E: the sleeping call under a guard of one second, and the failing call.\<close>

theorem ExecutionTimeout_outcome_witness:
  "with_ExecutionTimeout 1 sleeping_block \<lparr>sigalrm = SIG_DFL, alarm = None\<rparr>
     = (Raised AssertionError (timeout_msg (Some ''time.sleep(5)'') 1),
        \<lparr>sigalrm = Raise_TimeOut, alarm = None\<rparr>)
   \<and> with_ExecutionTimeout 1 failing_block \<lparr>sigalrm = SIG_DFL, alarm = None\<rparr>
     = (Propagated (OtherError ''ValueError'', ''bad value'',
                    [(''probe.py'', 12, ''check'', Some ''int(text)'')]),
        \<lparr>sigalrm = Raise_TimeOut, alarm = None\<rparr>)"
proof -
  let ?s = "\<lparr>sigalrm = SIG_DFL, alarm = None\<rparr>"
  have b1: "fst (sleeping_block (enter 1 ?s)) = Some (TimeOutError, [],
                      [(''probe.py'', 12, ''check'', Some ''time.sleep(5)''),
                       (''fuel_health/test.py'', 42, ''_raise_TimeOut'',
                        Some ''raise TimeOutError()'')])"
    by (simp add: sleeping_block_def enter_def signal_alarm_def)
  have b2: "fst (failing_block (enter 1 ?s)) = Some (OtherError ''ValueError'', ''bad value'',
            [(''probe.py'', 12, ''check'', Some ''int(text)'')])"
    by (simp add: failing_block_def)
  have g1: "sigalrm (snd (with_ExecutionTimeout 1 sleeping_block ?s)) = Raise_TimeOut"
    by (simp add: with_ExecutionTimeout_def sleeping_block_def enter_def signal_alarm_def
        exit_guard_def)
  have g2: "sigalrm (snd (with_ExecutionTimeout 1 failing_block ?s)) = Raise_TimeOut"
    by (simp add: with_ExecutionTimeout_def failing_block_def enter_def signal_alarm_def
        exit_guard_def)
  note t1 = ExecutionTimeout_outcome [of 1 sleeping_block ?s]
    and t2 = ExecutionTimeout_outcome [of 1 failing_block ?s]
  have a1: "fst (with_ExecutionTimeout 1 sleeping_block ?s)
              = Raised AssertionError (timeout_msg (Some ''time.sleep(5)'') 1)"
    using t1 b1 by (simp add: timeout_msg_def str_line_def)
  have a2: "fst (with_ExecutionTimeout 1 failing_block ?s)
              = Propagated (OtherError ''ValueError'', ''bad value'',
                    [(''probe.py'', 12, ''check'', Some ''int(text)'')])"
    using t2 b2 by simp
  have c1: "alarm (snd (with_ExecutionTimeout 1 sleeping_block ?s)) = None"
    using t1 by simp
  have c2: "alarm (snd (with_ExecutionTimeout 1 failing_block ?s)) = None"
    using t2 by simp
  show ?thesis
    using a1 a2 c1 c2 g1 g2
    by (metis (full_types) prod.collapse sig_state.surjective old.unit.exhaust)
qed

section \<open>Theorems about the check result records\<close>

lemma update_row_status [simp]: "update_row [Col_status \<mapsto> v] t = t(Col_status := v)"
  by (auto simp: update_row_def fun_eq_iff)

lemma runs_update_running_tests [simp]: "runs (update_running_tests s rid st) = runs s"
  by (simp add: update_running_tests_def)

lemma runs_update_test_run_tests [simp]: "runs (update_test_run_tests s rid ns st) = runs s"
  by (simp add: update_test_run_tests_def)

lemma runs_add_result [simp]: "runs (add_result s rid n data) = runs s"
  by (simp add: add_result_def)

lemma tests_session_add_run [simp]: "tests (session_add_run r s) = tests s"
  by (simp add: session_add_run_def)

text \<open>
  Claim C4. The claim is that every status that \<^verbatim>\<open>copy_test\<close> assigns lies in the declared
  domain \<^verbatim>\<open>Test.STATES\<close>. The clone of the check \<^verbatim>\<open>net\<close> for a run that enables only
  \<^verbatim>\<open>disk\<close> has the status \<^verbatim>\<open>disabled\<close>, which \<^verbatim>\<open>Test.STATES\<close> does not list.
\<close>

theorem copy_test_disabled_not_in_STATES:
  "copy_test (mk_test 1 ''net'' ''smoke'' VNull VNull) run_B [''disk''] Col_status = VStr ''disabled''
   \<and> ''disabled'' \<notin> set Test_STATES"
  by (simp add: copy_test_def mk_test_def Test_STATES_def primary_keys_def Let_def)

text \<open>
  Claim C7. \<^verbatim>\<open>add_result\<close> leaves the runs and the number of records as they are. In a
  record with the given run id and name, every column that the data name holds the value
  supplied and every other column is as it was; a record that does not match is as it was.
  When no record matches, the store is unchanged.
\<close>

theorem add_result_overwrites:
  "runs (add_result s rid n data) = runs s
   \<and> length (tests (add_result s rid n data)) = length (tests s)
   \<and> (\<forall>i<length (tests s). \<forall>c.
         (tests (add_result s rid n data) ! i) c =
           (if (tests s ! i) Col_name = VStr n \<and> (tests s ! i) Col_test_run_id = VInt rid
            then (case data c of Some v \<Rightarrow> v | None \<Rightarrow> (tests s ! i) c)
            else (tests s ! i) c))
   \<and> ((\<forall>t\<in>set (tests s). \<not> (t Col_name = VStr n \<and> t Col_test_run_id = VInt rid))
        \<longrightarrow> add_result s rid n data = s)"
proof -
  have 4: "(\<forall>t\<in>set (tests s). \<not> (t Col_name = VStr n \<and> t Col_test_run_id = VInt rid))
        \<longrightarrow> add_result s rid n data = s"
  proof
    assume a: "\<forall>t\<in>set (tests s). \<not> (t Col_name = VStr n \<and> t Col_test_run_id = VInt rid)"
    then have "map (\<lambda>t. if t Col_name = VStr n \<and> t Col_test_run_id = VInt rid
                   then update_row data t else t) (tests s) = tests s"
      by (intro map_idI) auto
    then show "add_result s rid n data = s"
      by (simp add: add_result_def)
  qed
  have 3: "\<forall>i<length (tests s). \<forall>c.
         (tests (add_result s rid n data) ! i) c =
           (if (tests s ! i) Col_name = VStr n \<and> (tests s ! i) Col_test_run_id = VInt rid
            then (case data c of Some v \<Rightarrow> v | None \<Rightarrow> (tests s ! i) c)
            else (tests s ! i) c)"
    by (auto simp: add_result_def update_row_def)
  have 12: "runs (add_result s rid n data) = runs s"
    "length (tests (add_result s rid n data)) = length (tests s)"
    by (simp_all add: add_result_def)
  from 12 3 4 show ?thesis by blast
qed

text \<open>
  A result for the check \<^verbatim>\<open>cpu\<close>, which run 7 does not have, changes nothing; a result
  for \<^verbatim>\<open>net\<close> overwrites the status and the step of that record and nothing else.
\<close>

theorem add_result_overwrites_witness:
  "add_result state_B 7 ''cpu'' [Col_status \<mapsto> VStr ''success''] = state_B
   \<and> (2 < length (tests state_B)
       \<and> (tests (add_result state_B 7 ''net'' [Col_status \<mapsto> VStr ''success'', Col_step \<mapsto> VInt 2])
            ! 2) Col_status = VStr ''success''
       \<and> (tests (add_result state_B 7 ''net'' [Col_status \<mapsto> VStr ''success'', Col_step \<mapsto> VInt 2])
            ! 2) Col_step = VInt 2
       \<and> (tests (add_result state_B 7 ''net'' [Col_status \<mapsto> VStr ''success'', Col_step \<mapsto> VInt 2])
            ! 2) Col_name = VStr ''net'')
   \<and> (3 < length (tests state_B)
       \<and> (tests (add_result state_B 7 ''net'' [Col_status \<mapsto> VStr ''success'', Col_step \<mapsto> VInt 2])
            ! 3) Col_status = VStr ''wait_running'')"
proof -
  let ?d = "[Col_status \<mapsto> VStr ''success'', Col_step \<mapsto> VInt 2]"
  have len: "length (tests state_B) = 4"
    by (simp add: state_B_def)
  have none: "\<forall>t\<in>set (tests state_B). \<not> (t Col_name = VStr ''cpu'' \<and> t Col_test_run_id = VInt 7)"
    by (simp add: state_B_def mk_test_def)
  from add_result_overwrites [of state_B 7 "''cpu''" "[Col_status \<mapsto> VStr ''success'']"] none
  have a: "add_result state_B 7 ''cpu'' [Col_status \<mapsto> VStr ''success''] = state_B"
    by blast
  from add_result_overwrites [of state_B 7 "''net''" ?d]
  have nth: "\<And>i c. i < 4 \<Longrightarrow> (tests (add_result state_B 7 ''net'' ?d) ! i) c =
           (if (tests state_B ! i) Col_name = VStr ''net''
               \<and> (tests state_B ! i) Col_test_run_id = VInt 7
            then (case ?d c of Some v \<Rightarrow> v | None \<Rightarrow> (tests state_B ! i) c)
            else (tests state_B ! i) c)"
    unfolding len by blast
  have b1: "(tests (add_result state_B 7 ''net'' ?d) ! 2) Col_status = VStr ''success''"
    using nth [of 2 Col_status] by (simp add: state_B_def mk_test_def)
  have b2: "(tests (add_result state_B 7 ''net'' ?d) ! 2) Col_step = VInt 2"
    using nth [of 2 Col_step] by (simp add: state_B_def mk_test_def)
  have b3: "(tests (add_result state_B 7 ''net'' ?d) ! 2) Col_name = VStr ''net''"
    using nth [of 2 Col_name] by (simp add: state_B_def mk_test_def)
  have b4: "(tests (add_result state_B 7 ''net'' ?d) ! 3) Col_status = VStr ''wait_running''"
    using nth [of 3 Col_status] by (simp add: state_B_def mk_test_def)
  from a b1 b2 b3 b4 show ?thesis by (simp add: len)
qed

section \<open>Theorems about the run\<close>

lemma runs_restart:
  "is_last_running s (test_set_id self) (cluster_id self) \<Longrightarrow>
   runs (snd (restart self s names now)) = runs (session_add_run (self\<lparr>status := ''running''\<rparr>) s)"
  by (simp add: restart_def update_def Let_def split: option.splits list.splits)

lemma tests_restart:
  "is_last_running s (test_set_id self) (cluster_id self) \<Longrightarrow>
   tests (snd (restart self s (Some ns) now)) =
     map (\<lambda>t. if t Col_name \<in> set (map VStr ns) \<and> t Col_test_run_id = VInt (run_id self)
               then t(Col_status := VStr ''wait_running'') else t) (tests s)"
  by (cases ns) (simp_all add: restart_def update_def Let_def update_test_run_tests_def map_idI)

text \<open>
  Claim C6. When \<open>is_last_running\<close> lets \<^verbatim>\<open>restart\<close> pass, the records of the run whose name is
  among the names given get the status \<^verbatim>\<open>wait_running\<close> and keep every other column;
  every other record, of this run or of another, is as it was.
\<close>

theorem restart_rearm:
  assumes "is_last_running s (test_set_id self) (cluster_id self)"
  shows "length (tests (snd (restart self s (Some ns) now))) = length (tests s)
   \<and> (\<forall>i<length (tests s).
         tests (snd (restart self s (Some ns) now)) ! i =
           (if (tests s ! i) Col_test_run_id = VInt (run_id self)
               \<and> (\<exists>n\<in>set ns. (tests s ! i) Col_name = VStr n)
            then (tests s ! i)(Col_status := VStr ''wait_running'')
            else tests s ! i))"
  using assms by (auto simp: tests_restart)

text \<open>
  Scenario C: \<^verbatim>\<open>disk\<close> of run 7 becomes \<^verbatim>\<open>wait_running\<close>, \<^verbatim>\<open>net\<close> stays
  \<^verbatim>\<open>success\<close>, the template of \<^verbatim>\<open>disk\<close> is untouched.
\<close>

theorem restart_rearm_witness:
  "is_last_running state_C (test_set_id run_C) (cluster_id run_C)
   \<and> (3 < length (tests state_C)
       \<and> tests (snd (restart run_C state_C (Some [''disk'']) 20)) ! 3
          = mk_test 4 ''disk'' ''smoke'' (VInt 7) (VStr ''wait_running''))
   \<and> (2 < length (tests state_C)
       \<and> tests (snd (restart run_C state_C (Some [''disk'']) 20)) ! 2
          = mk_test 3 ''net'' ''smoke'' (VInt 7) (VStr ''success''))
   \<and> (1 < length (tests state_C)
       \<and> tests (snd (restart run_C state_C (Some [''disk'']) 20)) ! 1
          = mk_test 2 ''disk'' ''smoke'' VNull VNull)"
proof -
  have g: "is_last_running state_C (test_set_id run_C) (cluster_id run_C)"
    by (simp add: is_last_running_def get_last_test_run_def state_C_def run_C_def is_finished_def)
  have len: "length (tests state_C) = 4"
    by (simp add: state_C_def)
  from restart_rearm [OF g, of "[''disk'']" 20]
  have nth: "\<And>i. i < 4 \<Longrightarrow> tests (snd (restart run_C state_C (Some [''disk'']) 20)) ! i =
           (if (tests state_C ! i) Col_test_run_id = VInt (run_id run_C)
               \<and> (\<exists>n\<in>set [''disk'']. (tests state_C ! i) Col_name = VStr n)
            then (tests state_C ! i)(Col_status := VStr ''wait_running'')
            else tests state_C ! i)"
    unfolding len by blast
  have a3: "tests (snd (restart run_C state_C (Some [''disk'']) 20)) ! 3
          = mk_test 4 ''disk'' ''smoke'' (VInt 7) (VStr ''wait_running'')"
    using nth [of 3] by (simp add: state_C_def run_C_def mk_test_def)
  have a2: "tests (snd (restart run_C state_C (Some [''disk'']) 20)) ! 2
          = mk_test 3 ''net'' ''smoke'' (VInt 7) (VStr ''success'')"
    using nth [of 2] by (simp add: state_C_def run_C_def mk_test_def)
  have a1: "tests (snd (restart run_C state_C (Some [''disk'']) 20)) ! 1
          = mk_test 2 ''disk'' ''smoke'' VNull VNull"
    using nth [of 1] by (simp add: state_C_def run_C_def mk_test_def)
  from g a3 a2 a1 show ?thesis by (simp add: len)
qed

section \<open>Theorems about the check of the last run\<close>





lemma fold_max_run_id:
  "(a::int) \<le> fold (\<lambda>r m. max (run_id r) m) rs a
   \<and> (\<forall>r\<in>set rs. run_id r \<le> fold (\<lambda>r m. max (run_id r) m) rs a)"
proof (induction rs arbitrary: a)
  case Nil
  show ?case by simp
next
  case (Cons x rs)
  from Cons.IH [of "max (run_id x) a"] show ?case by auto
qed

lemma next_run_id_greater:
  assumes "r \<in> set (runs s)"
  shows "run_id r < next_run_id s"
proof -
  from fold_max_run_id [of 0 "runs s"] assms
  have "run_id r \<le> fold (\<lambda>r m. max (run_id r) m) (runs s) 0"
    by blast
  then show ?thesis
    by (simp add: next_run_id_def)
qed

section \<open>Theorems about \<^verbatim>\<open>start\<close>\<close>

lemma fold_session_add_test:
  "fold (\<lambda>t. session_add_test (f t)) ds new = new @ map f ds"
  by (induction ds arbitrary: new) (simp_all add: session_add_test_def)

lemma runs_fold_insert_test [simp]: "runs (fold insert_test new s) = runs s"
  by (induction new arbitrary: s) (simp_all add: insert_test_def)

lemma runner_log_fold_insert_test [simp]:
  "runner_log (fold insert_test new s) = runner_log s"
  by (induction new arbitrary: s) (simp_all add: insert_test_def)

lemma loaded_fold_insert_test [simp]: "loaded (fold insert_test new s) = loaded s"
  by (induction new arbitrary: s) (simp_all add: insert_test_def)

lemma mset_run_tests:
  "mset (run_tests s r) = mset (filter (\<lambda>t. t Col_test_run_id = VInt (run_id r)) (tests s))"
  by (simp add: run_tests_def)

lemma sorted_run_tests: "sorted (map name_key (run_tests s r))"
  by (simp add: run_tests_def)

text \<open>
  What \<^verbatim>\<open>start\<close> does when the metadata have the cluster id: the three ways it ends, with
  the new run, the clones and the store written out.
\<close>

lemma start_cases:
  fixes s suite cid now names new_run clones s2
  defines "new_run \<equiv> \<lparr>run_id = next_run_id s, cluster_id = cid, status = ''running'',
                       meta = None, started_at = Some now, ended_at = None,
                       test_set_id = set_id suite\<rparr>"
    and "clones \<equiv>
           map (\<lambda>t. copy_test t new_run (case names of None \<Rightarrow> [] | Some ns \<Rightarrow> ns))
             (filter (\<lambda>t. t Col_test_set_id = VStr (set_id suite) \<and> t Col_test_run_id = VNull)
                (tests s))"
    and "s2 \<equiv> s\<lparr>runs := runs s @ [new_run],
                  runner_log := runner_log s @ [Run (next_run_id s) None]\<rparr>"
  assumes "metadata ''cluster_id'' = Some cid"
  shows "start s suite metadata names now =
    (if is_last_running s (set_id suite) cid then
       (if list_all status_ok clones
        then (Inr (Some (frontend (run_tests (fold insert_test clones s2) new_run) new_run)),
              fold insert_test clones s2)
        else (Inl IntegrityError, s\<lparr>runner_log := runner_log s @ [Run (next_run_id s) None]\<rparr>))
     else (Inr None, s))"
  using assms unfolding new_run_def clones_def s2_def
  by (simp add: start_def add_test_run_def Let_def flush_def fold_session_add_test rollback_def)

lemma status_ok_copy_test:
  "status_ok (copy_test d r ns) \<longleftrightarrow> (ns = [] \<or> d Col_name \<in> set (map VStr ns))"
  by (simp add: status_ok_def copy_test_def primary_keys_def Let_def Test_STATES_def)

lemma runs_start:
  "runs (snd (start s suite metadata names now)) = runs s \<or>
   (\<exists>cid. runs (snd (start s suite metadata names now)) =
      runs s @ [\<lparr>run_id = next_run_id s, cluster_id = cid, status = ''running'',
                meta = None, started_at = Some now, ended_at = None,
                test_set_id = set_id suite\<rparr>])"
proof (cases "metadata ''cluster_id''")
  case None
  then show ?thesis by (simp add: start_def)
next
  case (Some cid)
  show ?thesis
    by (simp add: start_cases [where metadata = metadata and cid = cid, OF Some])
qed

section \<open>Theorems about the runs of a store\<close>

lemma list_all_session_add_run:
  "list_all P (runs s) \<Longrightarrow> P r \<Longrightarrow> list_all P (runs (session_add_run r s))"
  by (auto simp: session_add_run_def list_all_iff)

lemma find_session_add_run:
  "find (\<lambda>x. run_id x = run_id r) (runs (session_add_run r s)) = Some r"
proof -
  have a: "find (\<lambda>x. run_id x = run_id r) (map (\<lambda>x. if run_id x = run_id r then r else x) rs) = Some r"
    if "run_id r \<in> set (map run_id rs)" for rs
    using that by (induction rs) auto
  have b: "find (\<lambda>x. run_id x = run_id r) (rs @ [r]) = Some r"
    if "run_id r \<notin> set (map run_id rs)" for rs
    using that by (induction rs) auto
  show ?thesis
    using a [of "runs s"] b [of "runs s"] by (simp add: session_add_run_def)
qed

lemma runs_restart_any:
  "runs (snd (restart self s names now)) = runs s
   \<or> runs (snd (restart self s names now)) = runs (session_add_run (self\<lparr>status := ''running''\<rparr>) s)"
  by (simp add: restart_def update_def Let_def update_test_run_tests_def
      split: option.splits list.splits)

lemma finished_has_ended_exec:
  assumes "finished_has_ended s"
  shows "finished_has_ended (exec op s)"
proof (cases op)
  case (Op_start suite metadata names now)
  from runs_start [of s suite metadata names now] assms
  have "finished_has_ended (snd (start s suite metadata names now))"
    by (auto simp: finished_has_ended_def)
  with Op_start show ?thesis by simp
next
  case (Op_restart rid names now)
  show ?thesis
  proof (cases "get_test_run s rid")
    case None
    with Op_restart assms show ?thesis by simp
  next
    case (Some self)
    have "list_all (\<lambda>r. status r = ''finished'' \<longrightarrow> ended_at r \<noteq> None)
            (runs (session_add_run (self\<lparr>status := ''running''\<rparr>) s))"
      using assms by (intro list_all_session_add_run) (simp_all add: finished_has_ended_def)
    with runs_restart_any [of self s names now] assms
    have "finished_has_ended (snd (restart self s names now))"
      by (auto simp: finished_has_ended_def)
    with Op_restart Some show ?thesis by simp
  qed
next
  case (Op_stop rid killed)
  then show ?thesis
    using assms
    by (auto simp: finished_has_ended_def stop_def Let_def update_running_tests_def
        split: option.splits)
next
  case (Op_update rid st now)
  show ?thesis
  proof (cases "get_test_run s rid")
    case None
    with Op_update assms show ?thesis by simp
  next
    case (Some self)
    have "list_all (\<lambda>r. status r = ''finished'' \<longrightarrow> ended_at r \<noteq> None)
            (runs (session_add_run (fst (update self s st now)) s))"
      using assms
      by (intro list_all_session_add_run) (simp_all add: finished_has_ended_def update_def Let_def)
    then have "finished_has_ended (snd (update self s st now))"
      by (simp add: finished_has_ended_def update_def Let_def)
    with Op_update Some show ?thesis by simp
  qed
next
  case (Op_update_test_run rid st now)
  then show ?thesis
    using assms
    by (auto simp: finished_has_ended_def update_test_run_def Let_def list_all_iff
        split: option.splits)
next
  case (Op_add_result rid n data)
  then show ?thesis
    using assms by (simp add: finished_has_ended_def add_result_def)
qed

lemma finished_has_ended_fold:
  "finished_has_ended s \<Longrightarrow> finished_has_ended (fold exec ops s)"
  by (induction ops arbitrary: s) (simp_all add: finished_has_ended_exec)

text \<open>
  Claim C1, as the code has it. A run that is \<^verbatim>\<open>finished\<close> has its end time stamp, and
  every sequence of operations keeps it so. \<^verbatim>\<open>restart\<close>, when the check of the last run lets it pass, writes
  the run back with the status \<^verbatim>\<open>running\<close> and with every other field, the end time
  stamp among them, as it was.
\<close>

theorem finished_has_ended_invariant:
  "(finished_has_ended s \<longrightarrow> finished_has_ended (fold exec ops s))
   \<and> (is_last_running s (test_set_id self) (cluster_id self)
        \<longrightarrow> get_test_run (snd (restart self s names now)) (run_id self)
              = Some (self\<lparr>status := ''running''\<rparr>))"
proof -
  have "get_test_run (snd (restart self s names now)) (run_id self)
              = Some (self\<lparr>status := ''running''\<rparr>)"
    if "is_last_running s (test_set_id self) (cluster_id self)"
  proof -
    have "runs (snd (restart self s names now))
            = runs (session_add_run (self\<lparr>status := ''running''\<rparr>) s)"
      using that
      by (simp add: restart_def update_def Let_def split: option.splits list.splits)
    then show ?thesis
      using find_session_add_run [of "self\<lparr>status := ''running''\<rparr>" s]
      by (simp add: get_test_run_def)
  qed
  then show ?thesis
    by (simp add: finished_has_ended_fold)
qed

text \<open>
  Scenario C: run 7 goes through \<^verbatim>\<open>restart\<close> and then \<^verbatim>\<open>update\<close> to \<^verbatim>\<open>finished\<close>;
  after \<^verbatim>\<open>restart\<close> it is \<^verbatim>\<open>running\<close> and still ended at 10.
\<close>

theorem finished_has_ended_invariant_witness:
  "finished_has_ended state_C
   \<and> finished_has_ended
       (fold exec [Op_restart 7 (Some [''disk'']) 20, Op_update 7 ''finished'' 30,
          Op_update_test_run 7 (Some ''running'') 40] state_C)
   \<and> is_last_running state_C (test_set_id run_C) (cluster_id run_C)
   \<and> get_test_run (snd (restart run_C state_C (Some [''disk'']) 20)) 7
       = Some \<lparr>run_id = 7, cluster_id = 1, status = ''running'', meta = None,
               started_at = Some 3, ended_at = Some 10, test_set_id = ''smoke''\<rparr>"
proof -
  have g: "is_last_running state_C (test_set_id run_C) (cluster_id run_C)"
    by (simp add: is_last_running_def get_last_test_run_def state_C_def run_C_def is_finished_def)
  have p: "finished_has_ended state_C"
    by (simp add: finished_has_ended_def state_C_def run_C_def)
  note t = finished_has_ended_invariant [of state_C
      "[Op_restart 7 (Some [''disk'']) 20, Op_update 7 ''finished'' 30,
          Op_update_test_run 7 (Some ''running'') 40]" run_C "Some [''disk'']" 20]
  from t p have a: "finished_has_ended
       (fold exec [Op_restart 7 (Some [''disk'']) 20, Op_update 7 ''finished'' 30,
          Op_update_test_run 7 (Some ''running'') 40] state_C)"
    by blast
  from t g have "get_test_run (snd (restart run_C state_C (Some [''disk'']) 20)) (run_id run_C)
              = Some (run_C\<lparr>status := ''running''\<rparr>)"
    by blast
  then have b: "get_test_run (snd (restart run_C state_C (Some [''disk'']) 20)) 7
       = Some \<lparr>run_id = 7, cluster_id = 1, status = ''running'', meta = None,
               started_at = Some 3, ended_at = Some 10, test_set_id = ''smoke''\<rparr>"
    by (simp add: run_C_def)
  from p a g b show ?thesis by simp
qed

text \<open>
  Claim C1, as the spec has it, fails: in Scenario C the invariant P2 holds before
  \<^verbatim>\<open>restart\<close>; after it the only run is \<^verbatim>\<open>running\<close> and has an end time stamp, so
  P2 does not hold.
\<close>

theorem restart_keeps_ended_at_counterexample:
  "P2_finish_invariant state_C
   \<and> runs (snd (restart run_C state_C (Some [''disk'']) 20))
       = [\<lparr>run_id = 7, cluster_id = 1, status = ''running'', meta = None,
           started_at = Some 3, ended_at = Some 10, test_set_id = ''smoke''\<rparr>]
   \<and> \<not> P2_finish_invariant (snd (restart run_C state_C (Some [''disk'']) 20))"
proof -
  have g: "is_last_running state_C (test_set_id run_C) (cluster_id run_C)"
    by (simp add: is_last_running_def get_last_test_run_def state_C_def run_C_def is_finished_def)
  have r: "runs (snd (restart run_C state_C (Some [''disk'']) 20))
       = [\<lparr>run_id = 7, cluster_id = 1, status = ''running'', meta = None,
           started_at = Some 3, ended_at = Some 10, test_set_id = ''smoke''\<rparr>]"
    using g
    by (simp add: restart_def update_def Let_def session_add_run_def state_C_def run_C_def)
  have p: "P2_finish_invariant state_C"
    by (simp add: P2_finish_invariant_def state_C_def run_C_def)
  have n: "\<not> P2_finish_invariant (snd (restart run_C state_C (Some [''disk'']) 20))"
    unfolding P2_finish_invariant_def r by simp
  from p r n show ?thesis by simp
qed

lemma frontend_fields:
  "frontend ts r =
     \<lparr>fr_id = run_id r, fr_testset = test_set_id r, fr_meta = meta r,
      fr_cluster_id = cluster_id r, fr_status = status r, fr_started_at = started_at r,
      fr_ended_at = ended_at r,
      fr_tests =
        map (\<lambda>t. \<lparr>ft_id = t Col_name, ft_testset = t Col_test_set_id, ft_name = t Col_title,
                    ft_description = t Col_description, ft_duration = t Col_duration,
                    ft_message = t Col_message, ft_step = t Col_step,
                    ft_status = t Col_status, ft_taken = t Col_time_taken\<rparr>) ts\<rparr>"
  by (simp add: frontend_def Test_frontend_def)




section \<open>Theorems about \<^verbatim>\<open>stop\<close>\<close>

text \<open>
  Claim C5. \<^verbatim>\<open>stop\<close> leaves the rows of the runs as they are and returns the snapshot of
  its run whether the runner confirmed or not: the fields of the run object, the status of
  the run as it was, and the records of the run, as the session had loaded them before the
  call when it had, and otherwise as the rows are after the call, ordered by name. A record
  is changed only when the runner confirmed, the record belongs to the run and its status is
  \<^verbatim>\<open>running\<close> or \<^verbatim>\<open>wait_running\<close>; then its status becomes \<^verbatim>\<open>stopped\<close> and nothing
  else changes. Every other record is as it was.
\<close>

theorem stop_frame:
  "runs (snd (stop self s killed)) = runs s
   \<and> fst (stop self s killed)
       = \<lparr>fr_id = run_id self, fr_testset = test_set_id self, fr_meta = meta self,
          fr_cluster_id = cluster_id self, fr_status = status self,
          fr_started_at = started_at self, fr_ended_at = ended_at self,
          fr_tests =
            map (\<lambda>t. \<lparr>ft_id = t Col_name, ft_testset = t Col_test_set_id,
                        ft_name = t Col_title, ft_description = t Col_description,
                        ft_duration = t Col_duration, ft_message = t Col_message,
                        ft_step = t Col_step, ft_status = t Col_status,
                        ft_taken = t Col_time_taken\<rparr>)
              (case loaded s (run_id self) of
                 Some ts \<Rightarrow> ts
               | None \<Rightarrow> run_tests (snd (stop self s killed)) self)\<rparr>
   \<and> mset (run_tests (snd (stop self s killed)) self)
       = mset (filter (\<lambda>t. t Col_test_run_id = VInt (run_id self))
                 (tests (snd (stop self s killed))))
   \<and> sorted (map name_key (run_tests (snd (stop self s killed)) self))
   \<and> fr_status (fst (stop self s killed)) = status self
   \<and> length (tests (snd (stop self s killed))) = length (tests s)
   \<and> (\<forall>i<length (tests s).
         tests (snd (stop self s killed)) ! i =
           (if killed \<and> (tests s ! i) Col_test_run_id = VInt (run_id self)
               \<and> ((tests s ! i) Col_status = VStr ''running''
                    \<or> (tests s ! i) Col_status = VStr ''wait_running'')
            then (tests s ! i)(Col_status := VStr ''stopped'')
            else tests s ! i))"
proof -
  let ?s' = "snd (stop self s killed)"
  have l: "loaded ?s' = loaded s"
    by (simp add: stop_def Let_def update_running_tests_def)
  have 1: "runs ?s' = runs s"
    by (simp add: stop_def Let_def)
  have 2: "fst (stop self s killed) = frontend (TestRun_tests ?s' self) self"
    by (simp add: stop_def Let_def)
  have 3: "TestRun_tests ?s' self =
             (case loaded s (run_id self) of Some ts \<Rightarrow> ts | None \<Rightarrow> run_tests ?s' self)"
    by (simp add: TestRun_tests_def l)
  have 4: "length (tests ?s') = length (tests s)"
    by (simp add: stop_def Let_def update_running_tests_def)
  have 5: "\<forall>i<length (tests s).
         tests ?s' ! i =
           (if killed \<and> (tests s ! i) Col_test_run_id = VInt (run_id self)
               \<and> ((tests s ! i) Col_status = VStr ''running''
                    \<or> (tests s ! i) Col_status = VStr ''wait_running'')
            then (tests s ! i)(Col_status := VStr ''stopped'')
            else tests s ! i)"
    by (auto simp: stop_def Let_def update_running_tests_def)
  have 6: "fr_status (fst (stop self s killed)) = status self"
    by (simp add: 2 frontend_def)
  show ?thesis
    unfolding 2 3 [symmetric] frontend_fields [symmetric]
    using 1 4 5 6 mset_run_tests [of ?s' self] sorted_run_tests [of ?s' self]
    unfolding 2
    by (intro conjI) simp_all
qed

text \<open>
  Scenario B: both records of run 7 become \<^verbatim>\<open>stopped\<close>, the template is untouched, the
  run stays \<^verbatim>\<open>running\<close>, and the snapshot shows both records \<^verbatim>\<open>stopped\<close>. When run 7
  was loaded together with its records, the rows become \<^verbatim>\<open>stopped\<close> all the same and the
  snapshot shows the records as they were loaded. A record that failed stays failed; without
  the confirmation of the runner nothing changes.
\<close>

theorem stop_frame_witness:
  "runs (snd (stop run_B state_B True)) = [run_B]
   \<and> fst (stop run_B state_B True)
       = \<lparr>fr_id = 7, fr_testset = ''smoke'', fr_meta = None, fr_cluster_id = 1,
          fr_status = ''running'', fr_started_at = Some 3, fr_ended_at = None,
          fr_tests =
            [\<lparr>ft_id = VStr ''disk'', ft_testset = VStr ''smoke'', ft_name = VNull,
              ft_description = VNull, ft_duration = VNull, ft_message = VNull,
              ft_step = VNull, ft_status = VStr ''stopped'', ft_taken = VNull\<rparr>,
             \<lparr>ft_id = VStr ''net'', ft_testset = VStr ''smoke'', ft_name = VNull,
              ft_description = VNull, ft_duration = VNull, ft_message = VNull,
              ft_step = VNull, ft_status = VStr ''stopped'', ft_taken = VNull\<rparr>]\<rparr>
   \<and> fst (stop run_B state_B_joined True)
       = \<lparr>fr_id = 7, fr_testset = ''smoke'', fr_meta = None, fr_cluster_id = 1,
          fr_status = ''running'', fr_started_at = Some 3, fr_ended_at = None,
          fr_tests =
            [\<lparr>ft_id = VStr ''disk'', ft_testset = VStr ''smoke'', ft_name = VNull,
              ft_description = VNull, ft_duration = VNull, ft_message = VNull,
              ft_step = VNull, ft_status = VStr ''wait_running'', ft_taken = VNull\<rparr>,
             \<lparr>ft_id = VStr ''net'', ft_testset = VStr ''smoke'', ft_name = VNull,
              ft_description = VNull, ft_duration = VNull, ft_message = VNull,
              ft_step = VNull, ft_status = VStr ''running'', ft_taken = VNull\<rparr>]\<rparr>
   \<and> (2 < length (tests state_B_joined)
        \<and> tests (snd (stop run_B state_B_joined True)) ! 2
           = mk_test 3 ''net'' ''smoke'' (VInt 7) (VStr ''stopped''))
   \<and> (2 < length (tests state_B)
        \<and> tests (snd (stop run_B state_B True)) ! 2
           = mk_test 3 ''net'' ''smoke'' (VInt 7) (VStr ''stopped''))
   \<and> (3 < length (tests state_B)
        \<and> tests (snd (stop run_B state_B True)) ! 3
           = mk_test 4 ''disk'' ''smoke'' (VInt 7) (VStr ''stopped''))
   \<and> (0 < length (tests state_B)
        \<and> tests (snd (stop run_B state_B True)) ! 0 = mk_test 1 ''net'' ''smoke'' VNull VNull)
   \<and> (3 < length (tests state_C)
        \<and> tests (snd (stop run_C state_C True)) ! 3
          = mk_test 4 ''disk'' ''smoke'' (VInt 7) (VStr ''failure''))
   \<and> (2 < length (tests state_B)
        \<and> tests (snd (stop run_B state_B False)) ! 2
          = mk_test 3 ''net'' ''smoke'' (VInt 7) (VStr ''running''))"
proof -
  note t = stop_frame [of run_B state_B True] and f = stop_frame [of run_B state_B False]
    and c = stop_frame [of run_C state_C True] and j = stop_frame [of run_B state_B_joined True]
  have tj: "tests state_B_joined = tests state_B"
    by (simp add: state_B_joined_def get_test_run_joined_def state_B_def)
  have len: "length (tests state_B) = 4" "length (tests state_C) = 4"
    "length (tests state_B_joined) = 4"
    by (simp_all add: tj) (simp_all add: state_B_def state_C_def)
  have r: "runs (snd (stop run_B state_B True)) = [run_B]"
    using t by (simp add: state_B_def)
  have lB: "loaded state_B (run_id run_B) = None"
    by (simp add: state_B_def)
  have lJ: "loaded state_B_joined (run_id run_B)
            = Some [mk_test 4 ''disk'' ''smoke'' (VInt 7) (VStr ''wait_running''),
                    mk_test 3 ''net'' ''smoke'' (VInt 7) (VStr ''running'')]"
    by (simp add: state_B_joined_def get_test_run_joined_def state_B_def run_B_def
        run_tests_def mk_test_def name_key_def)
  have tsB: "tests (snd (stop run_B state_B True)) =
     [mk_test 1 ''net'' ''smoke'' VNull VNull, mk_test 2 ''disk'' ''smoke'' VNull VNull,
      mk_test 3 ''net'' ''smoke'' (VInt 7) (VStr ''stopped''),
      mk_test 4 ''disk'' ''smoke'' (VInt 7) (VStr ''stopped'')]"
    by (simp add: stop_def Let_def update_running_tests_def state_B_def run_B_def mk_test_def
        fun_eq_iff)
  have rtB: "run_tests (snd (stop run_B state_B True)) run_B
             = [mk_test 4 ''disk'' ''smoke'' (VInt 7) (VStr ''stopped''),
                mk_test 3 ''net'' ''smoke'' (VInt 7) (VStr ''stopped'')]"
    by (simp add: run_tests_def tsB) (simp add: run_B_def mk_test_def name_key_def)
  have sB: "fst (stop run_B state_B True)
       = \<lparr>fr_id = 7, fr_testset = ''smoke'', fr_meta = None, fr_cluster_id = 1,
          fr_status = ''running'', fr_started_at = Some 3, fr_ended_at = None,
          fr_tests =
            [\<lparr>ft_id = VStr ''disk'', ft_testset = VStr ''smoke'', ft_name = VNull,
              ft_description = VNull, ft_duration = VNull, ft_message = VNull,
              ft_step = VNull, ft_status = VStr ''stopped'', ft_taken = VNull\<rparr>,
             \<lparr>ft_id = VStr ''net'', ft_testset = VStr ''smoke'', ft_name = VNull,
              ft_description = VNull, ft_duration = VNull, ft_message = VNull,
              ft_step = VNull, ft_status = VStr ''stopped'', ft_taken = VNull\<rparr>]\<rparr>"
    using t [THEN conjunct2, THEN conjunct1] unfolding lB rtB
    by (simp add: run_B_def mk_test_def)
  have sJ: "fst (stop run_B state_B_joined True)
       = \<lparr>fr_id = 7, fr_testset = ''smoke'', fr_meta = None, fr_cluster_id = 1,
          fr_status = ''running'', fr_started_at = Some 3, fr_ended_at = None,
          fr_tests =
            [\<lparr>ft_id = VStr ''disk'', ft_testset = VStr ''smoke'', ft_name = VNull,
              ft_description = VNull, ft_duration = VNull, ft_message = VNull,
              ft_step = VNull, ft_status = VStr ''wait_running'', ft_taken = VNull\<rparr>,
             \<lparr>ft_id = VStr ''net'', ft_testset = VStr ''smoke'', ft_name = VNull,
              ft_description = VNull, ft_duration = VNull, ft_message = VNull,
              ft_step = VNull, ft_status = VStr ''running'', ft_taken = VNull\<rparr>]\<rparr>"
    using j [THEN conjunct2, THEN conjunct1] unfolding lJ
    by (simp add: run_B_def mk_test_def)
  from t have nth_t: "\<And>i. i < 4 \<Longrightarrow> tests (snd (stop run_B state_B True)) ! i =
           (if True \<and> (tests state_B ! i) Col_test_run_id = VInt (run_id run_B)
               \<and> ((tests state_B ! i) Col_status = VStr ''running''
                    \<or> (tests state_B ! i) Col_status = VStr ''wait_running'')
            then (tests state_B ! i)(Col_status := VStr ''stopped'')
            else tests state_B ! i)"
    unfolding len by blast
  from j have nth_j: "\<And>i. i < 4 \<Longrightarrow> tests (snd (stop run_B state_B_joined True)) ! i =
           (if True \<and> (tests state_B ! i) Col_test_run_id = VInt (run_id run_B)
               \<and> ((tests state_B ! i) Col_status = VStr ''running''
                    \<or> (tests state_B ! i) Col_status = VStr ''wait_running'')
            then (tests state_B ! i)(Col_status := VStr ''stopped'')
            else tests state_B ! i)"
    unfolding len tj by blast
  from f have nth_f: "\<And>i. i < 4 \<Longrightarrow> tests (snd (stop run_B state_B False)) ! i =
           (if False \<and> (tests state_B ! i) Col_test_run_id = VInt (run_id run_B)
               \<and> ((tests state_B ! i) Col_status = VStr ''running''
                    \<or> (tests state_B ! i) Col_status = VStr ''wait_running'')
            then (tests state_B ! i)(Col_status := VStr ''stopped'')
            else tests state_B ! i)"
    unfolding len by blast
  from c have nth_c: "\<And>i. i < 4 \<Longrightarrow> tests (snd (stop run_C state_C True)) ! i =
           (if True \<and> (tests state_C ! i) Col_test_run_id = VInt (run_id run_C)
               \<and> ((tests state_C ! i) Col_status = VStr ''running''
                    \<or> (tests state_C ! i) Col_status = VStr ''wait_running'')
            then (tests state_C ! i)(Col_status := VStr ''stopped'')
            else tests state_C ! i)"
    unfolding len by blast
  have j2: "tests (snd (stop run_B state_B_joined True)) ! 2
           = mk_test 3 ''net'' ''smoke'' (VInt 7) (VStr ''stopped'')"
    using nth_j [of 2] by (simp add: state_B_def run_B_def mk_test_def)
  have a2: "tests (snd (stop run_B state_B True)) ! 2
           = mk_test 3 ''net'' ''smoke'' (VInt 7) (VStr ''stopped'')"
    using nth_t [of 2] by (simp add: state_B_def run_B_def mk_test_def)
  have a3: "tests (snd (stop run_B state_B True)) ! 3
           = mk_test 4 ''disk'' ''smoke'' (VInt 7) (VStr ''stopped'')"
    using nth_t [of 3] by (simp add: state_B_def run_B_def mk_test_def)
  have a0: "tests (snd (stop run_B state_B True)) ! 0 = mk_test 1 ''net'' ''smoke'' VNull VNull"
    using nth_t [of 0] by (simp add: state_B_def run_B_def mk_test_def)
  have c3: "tests (snd (stop run_C state_C True)) ! 3
          = mk_test 4 ''disk'' ''smoke'' (VInt 7) (VStr ''failure'')"
    using nth_c [of 3] by (simp add: state_C_def run_C_def mk_test_def)
  have f2: "tests (snd (stop run_B state_B False)) ! 2
          = mk_test 3 ''net'' ''smoke'' (VInt 7) (VStr ''running'')"
    using nth_f [of 2] by (simp add: state_B_def)
  show ?thesis
    unfolding len by (simp only: r sB sJ j2 a2 a3 a0 c3 f2 simp_thms) simp
qed

section \<open>Theorems about the clones that \<^verbatim>\<open>start\<close> makes\<close>

lemma list_all2_right_ex:
  "list_all2 P xs ys \<Longrightarrow> y \<in> set ys \<Longrightarrow> \<exists>x\<in>set xs. P x y"
  by (induction rule: list_all2_induct) auto

lemma tests_fold_insert_test:
  "\<exists>news. tests (fold insert_test cs s) = tests s @ news
          \<and> list_all2 (\<lambda>c t. \<exists>i. t = c(Col_id := VInt i)) cs news"
proof (induction cs arbitrary: s)
  case Nil
  show ?case by simp
next
  case (Cons c cs)
  from Cons.IH [of "insert_test c s"]
  obtain news where n:
    "tests (fold insert_test cs (insert_test c s)) = tests (insert_test c s) @ news"
    "list_all2 (\<lambda>c t. \<exists>i. t = c(Col_id := VInt i)) cs news"
    by blast
  let ?t = "c(Col_id := VInt (next_test_id s))"
  have "tests (fold insert_test (c # cs) s) = tests s @ (?t # news)"
    using n(1) by (simp add: insert_test_def)
  moreover have "list_all2 (\<lambda>c t. \<exists>i. t = c(Col_id := VInt i)) (c # cs) (?t # news)"
    using n(2) by auto
  ultimately show ?case by blast
qed

lemma references_below_next_run_id:
  assumes "references_ok s" "t \<in> set (tests s)"
  shows "t Col_test_run_id \<noteq> VInt (next_run_id s)"
proof
  assume a: "t Col_test_run_id = VInt (next_run_id s)"
  from assms have "t Col_test_run_id = VNull
      \<or> t Col_test_run_id \<in> set (map (\<lambda>r. VInt (run_id r)) (runs s))"
    by (simp add: references_ok_def list_all_iff)
  with a obtain r where "r \<in> set (runs s)" "run_id r = next_run_id s"
    by auto
  with next_run_id_greater [of r s] show False by simp
qed

text \<open>
  When \<^verbatim>\<open>start\<close> returns a snapshot (no names given, or names that cover every check of
  the suite) and every record of the store refers to a run of the store, the records tied to
  the new run are, one for one and in the same order, the copies of the check definitions of
  the suite, each with the status \<^verbatim>\<open>wait_running\<close>.
\<close>

lemma start_clones_wait_running:
  assumes md: "metadata ''cluster_id'' = Some cid"
    and ok: "start s suite metadata names now = (Inr (Some fr), s')"
    and fk: "references_ok s"
  shows "list_all2
           (\<lambda>d t. t Col_test_run_id = VInt (next_run_id s)
                  \<and> t Col_status = VStr ''wait_running''
                  \<and> (\<forall>c. c \<noteq> Col_id \<and> c \<noteq> Col_test_run_id \<and> c \<noteq> Col_status \<longrightarrow> t c = d c))
           (filter (\<lambda>t. t Col_test_set_id = VStr (set_id suite) \<and> t Col_test_run_id = VNull)
              (tests s))
           (filter (\<lambda>t. t Col_test_run_id = VInt (next_run_id s)) (tests s'))"
proof -
  let ?ns = "case names of None \<Rightarrow> [] | Some ns \<Rightarrow> ns"
  let ?new = "\<lparr>run_id = next_run_id s, cluster_id = cid, status = ''running'',
               meta = None, started_at = Some now, ended_at = None,
               test_set_id = set_id suite\<rparr>"
  let ?ds = "filter (\<lambda>t. t Col_test_set_id = VStr (set_id suite) \<and> t Col_test_run_id = VNull)
               (tests s)"
  let ?clones = "map (\<lambda>t. copy_test t ?new ?ns) ?ds"
  let ?s2 = "s\<lparr>runs := runs s @ [?new],
               runner_log := runner_log s @ [Run (next_run_id s) None]\<rparr>"
  let ?P = "\<lambda>d t. t Col_test_run_id = VInt (next_run_id s)
                  \<and> t Col_status = VStr ''wait_running''
                  \<and> (\<forall>c. c \<noteq> Col_id \<and> c \<noteq> Col_test_run_id \<and> c \<noteq> Col_status \<longrightarrow> t c = d c)"
  from ok have all_ok: "list_all status_ok ?clones" and s': "s' = fold insert_test ?clones ?s2"
    unfolding start_cases [where metadata = metadata and cid = cid, OF md]
    by (auto split: if_splits)
  from tests_fold_insert_test [of ?clones ?s2]
  obtain news where n: "tests s' = tests s @ news"
    "list_all2 (\<lambda>c t. \<exists>i. t = c(Col_id := VInt i)) ?clones news"
    unfolding s' by auto
  from n(2) have n2: "list_all2 (\<lambda>d t. \<exists>i. t = (copy_test d ?new ?ns)(Col_id := VInt i)) ?ds news"
    by (simp add: list_all2_map1)
  have okd: "status_ok (copy_test d ?new ?ns)" if "d \<in> set ?ds" for d
    using all_ok that by (simp add: list_all_iff)
  have cl: "list_all2 ?P ?ds news"
  proof (rule list.rel_mono_strong [OF n2])
    fix d t
    assume d: "d \<in> set ?ds" and "\<exists>i. t = (copy_test d ?new ?ns)(Col_id := VInt i)"
    then obtain i where t: "t = (copy_test d ?new ?ns)(Col_id := VInt i)" by blast
    from okd [OF d] have "?ns = [] \<or> d Col_name \<in> set (map VStr ?ns)"
      by (simp only: status_ok_copy_test)
    then show "?P d t"
      unfolding t by (auto simp: copy_test_def primary_keys_def Let_def)
  qed
  have old: "filter (\<lambda>t. t Col_test_run_id = VInt (next_run_id s)) (tests s) = []"
    using references_below_next_run_id [OF fk] by (simp add: filter_empty_conv)
  have "\<forall>t\<in>set news. t Col_test_run_id = VInt (next_run_id s)"
    using list_all2_right_ex [OF cl] by auto
  then have new: "filter (\<lambda>t. t Col_test_run_id = VInt (next_run_id s)) news = news"
    by (simp add: filter_id_conv)
  show ?thesis
    using cl by (simp add: n(1) old new)
qed

text \<open>
  Claim C3. The claim is that with a subset that is not empty the clones whose name is not
  in the subset get the status \<^verbatim>\<open>disabled\<close>. In Scenario A with only \<^verbatim>\<open>net\<close> enabled,
  \<^verbatim>\<open>copy_test\<close> gives the clone of \<^verbatim>\<open>disk\<close> the status \<^verbatim>\<open>disabled\<close>; the column
  refuses it, \<^verbatim>\<open>start\<close> raises \<^verbatim>\<open>IntegrityError\<close> after the runner was called, and no
  run and no record is stored. Without names, or with names that cover every check, the
  clones are stored as \<^verbatim>\<open>wait_running\<close> (\<open>start_clones_wait_running\<close>). The defect is
  the one of claim C4: \<^verbatim>\<open>Test.STATES\<close> does not list \<^verbatim>\<open>disabled\<close>.
\<close>

theorem start_subset_IntegrityError:
  "copy_test (mk_test 2 ''disk'' ''smoke'' VNull VNull)
      \<lparr>run_id = 1, cluster_id = 1, status = ''running'', meta = None,
       started_at = Some 5, ended_at = None, test_set_id = ''smoke''\<rparr> [''net''] Col_status
     = VStr ''disabled''
   \<and> fst (start state_A smoke target_1 (Some [''net'']) 5) = Inl IntegrityError
   \<and> runs (snd (start state_A smoke target_1 (Some [''net'']) 5)) = runs state_A
   \<and> tests (snd (start state_A smoke target_1 (Some [''net'']) 5)) = tests state_A
   \<and> runner_log (snd (start state_A smoke target_1 (Some [''net'']) 5)) = [Run 1 None]"
  by (simp add: start_def target_1_def is_last_running_def get_last_test_run_def state_A_def
      add_test_run_def Let_def smoke_def session_add_test_def flush_def status_ok_def
      copy_test_def primary_keys_def Test_STATES_def next_run_id_def mk_test_def rollback_def)

end
